theory Spec2Isabelle
  imports Main "HOL-Library.Sublist" "HOL-Library.AList"
begin

section \<open>JavaScript strings\<close>

text \<open>
  A JavaScript string is a sequence of UTF-16 code units; \<open>length\<close> counts code units.
  A code unit is modelled by its number. \<open>js\<close> turns an ASCII literal of the source
  into its code units.
\<close>

type_synonym jsstring = "nat list"

definition js :: "string \<Rightarrow> jsstring" where
  "js s = map of_char s"

text \<open>The character class of \<^verbatim>\<open>/[.!?]+/\<close>.\<close>

definition is_sentence_end :: "nat \<Rightarrow> bool" where
  "is_sentence_end c = (c = 46 \<or> c = 33 \<or> c = 63)"

text \<open>
  The class \<^verbatim>\<open>\s\<close> of a regular expression, which is also what \<^verbatim>\<open>trim()\<close> strips:
  WhiteSpace and LineTerminator of ECMAScript (tab, LF, VT, FF, CR, space, U+00A0, U+1680,
  U+2000 to U+200A, U+2028, U+2029, U+202F, U+205F, U+3000, U+FEFF).
\<close>

definition is_space :: "nat \<Rightarrow> bool" where
  "is_space c =
     ((9 \<le> c \<and> c \<le> 13) \<or> c = 32 \<or> c = 160 \<or> c = 5760 \<or> (8192 \<le> c \<and> c \<le> 8202)
      \<or> c = 8232 \<or> c = 8233 \<or> c = 8239 \<or> c = 8287 \<or> c = 12288 \<or> c = 65279)"

text \<open>The class \<^verbatim>\<open>\w\<close> (no unicode or ignoreCase flag): \<^verbatim>\<open>[A-Za-z0-9_]\<close>.\<close>

definition is_word_char :: "nat \<Rightarrow> bool" where
  "is_word_char c =
     ((48 \<le> c \<and> c \<le> 57) \<or> (65 \<le> c \<and> c \<le> 90) \<or> c = 95 \<or> (97 \<le> c \<and> c \<le> 122))"

text \<open>
  \<^verbatim>\<open>s.split(/C+/)\<close> for a character class \<open>C\<close>: the pieces between the maximal runs of
  separator characters. A run at the start or at the end leaves an empty piece there, and
  the empty string splits into one empty piece.
\<close>

function split_on :: "(nat \<Rightarrow> bool) \<Rightarrow> jsstring \<Rightarrow> jsstring list" where
  "split_on sep [] = [[]]"
| "split_on sep (c # cs) =
     (if sep c then [] # split_on sep (dropWhile sep cs)
      else (case split_on sep cs of [] \<Rightarrow> [[c]] | p # ps \<Rightarrow> (c # p) # ps))"
  by pat_completeness auto
termination
  by (relation "measure (\<lambda>(sep, s). length s)")
     (auto simp: less_Suc_eq_le length_dropWhile_le)

definition trim :: "jsstring \<Rightarrow> jsstring" where
  "trim s = rev (dropWhile is_space (rev (dropWhile is_space s)))"

text \<open>\<^verbatim>\<open>s.includes(t)\<close>: \<open>t\<close> occurs in \<open>s\<close> as a contiguous run.\<close>

definition includes_str :: "jsstring \<Rightarrow> jsstring \<Rightarrow> bool" where
  "includes_str s t = sublist t s"

text \<open>\<^verbatim>\<open>xs.join(sep)\<close>.\<close>

fun join :: "jsstring \<Rightarrow> jsstring list \<Rightarrow> jsstring" where
  "join sep [] = []"
| "join sep [x] = x"
| "join sep (x # y # ys) = x @ sep @ join sep (y # ys)"

text \<open>
  \<^verbatim>\<open>toLowerCase()\<close> follows the Unicode case tables of the JavaScript engine, which are
  not part of the repository: every function below takes the lower-casing function as its
  first argument \<open>lc\<close>. On strings of ASCII code units \<^verbatim>\<open>toLowerCase()\<close> is
  \<open>ascii_toLowerCase\<close>, which the concrete runs below use.
\<close>

definition ascii_toLowerCase :: "jsstring \<Rightarrow> jsstring" where
  "ascii_toLowerCase s = map (\<lambda>c. if 65 \<le> c \<and> c \<le> 90 then c + 32 else c) s"

section \<open>The frequency table: a JavaScript object\<close>

text \<open>
  The values the table can hold or return: a number, something inherited from
  \<^verbatim>\<open>Object.prototype\<close> (a function or the prototype object, both truthy), and the string
  that \<^verbatim>\<open>+ 1\<close> makes of such a value (the function's source text followed by \<open>1\<close>),
  which is not numeric.
\<close>

datatype jsval = Num nat | Inherited | NonNumeric

text \<open>The own properties of an object, in the order of their creation.\<close>

type_synonym jsobject = "(jsstring \<times> jsval) list"

text \<open>The properties every object literal \<^verbatim>\<open>{}\<close> inherits from \<^verbatim>\<open>Object.prototype\<close>.\<close>

definition prototype_methods :: "jsstring list" where
  "prototype_methods =
     [js ''constructor'', js ''hasOwnProperty'', js ''isPrototypeOf'',
      js ''propertyIsEnumerable'', js ''toLocaleString'', js ''toString'', js ''valueOf'',
      js ''__defineGetter__'', js ''__defineSetter__'', js ''__lookupGetter__'',
      js ''__lookupSetter__'']"

definition proto_accessor :: jsstring where
  "proto_accessor = js ''__proto__''"

text \<open>\<^verbatim>\<open>obj[key]\<close>: an own property, else an inherited one, else \<^verbatim>\<open>undefined\<close> (None).\<close>

definition get_prop :: "jsobject \<Rightarrow> jsstring \<Rightarrow> jsval option" where
  "get_prop obj key =
     (case map_of obj key of
        Some v \<Rightarrow> Some v
      | None \<Rightarrow> if key \<in> set prototype_methods \<or> key = proto_accessor
                then Some Inherited else None)"

text \<open>
  \<^verbatim>\<open>obj[key] = v\<close> for a number or a string \<open>v\<close>: the setter of \<^verbatim>\<open>__proto__\<close> ignores
  such a value; any other key becomes (or stays) an own property.
\<close>

definition set_prop :: "jsobject \<Rightarrow> jsstring \<Rightarrow> jsval \<Rightarrow> jsobject" where
  "set_prop obj key v = (if key = proto_accessor then obj else AList.update key v obj)"

text \<open>\<^verbatim>\<open>(x || 0) + 1\<close>.\<close>

fun or_zero_plus_one :: "jsval option \<Rightarrow> jsval" where
  "or_zero_plus_one None = Num 1"
| "or_zero_plus_one (Some (Num n)) = Num (n + 1)"
| "or_zero_plus_one (Some Inherited) = NonNumeric"
| "or_zero_plus_one (Some NonNumeric) = NonNumeric"

text \<open>
  An array index is the canonical decimal form of an integer below \<open>2^32 - 1\<close>.
  \<^verbatim>\<open>Object.entries\<close> lists the own properties whose keys are array indices first, in
  ascending numeric order, then the other keys in the order of their creation.
\<close>

definition is_digit :: "nat \<Rightarrow> bool" where
  "is_digit c = (48 \<le> c \<and> c \<le> 57)"

definition index_value :: "jsstring \<Rightarrow> nat" where
  "index_value key = foldl (\<lambda>a c. 10 * a + (c - 48)) 0 key"

definition is_array_index :: "jsstring \<Rightarrow> bool" where
  "is_array_index key =
     (key \<noteq> [] \<and> list_all is_digit key \<and> (key = [48] \<or> take 1 key \<noteq> [48])
      \<and> index_value key < 4294967295)"

definition Object_entries :: "jsobject \<Rightarrow> (jsstring \<times> jsval) list" where
  "Object_entries obj =
     sort_key (\<lambda>e. index_value (fst e)) (filter (\<lambda>e. is_array_index (fst e)) obj)
     @ filter (\<lambda>e. \<not> is_array_index (fst e)) obj"

section \<open>Sorting with a comparator\<close>

text \<open>
  \<^verbatim>\<open>Array.prototype.sort(cmp)\<close> is stable, and a comparator result of NaN (None here)
  counts as 0. For a consistent comparator this fixes the result, which the insertion
  sort below computes. Where the comparator is not consistent (a non-numeric count next to
  unequal numbers) ECMAScript leaves the order to the engine, and the insertion sort
  stands for one engine.
\<close>

fun insert_sorted :: "('a \<Rightarrow> 'a \<Rightarrow> int option) \<Rightarrow> 'a \<Rightarrow> 'a list \<Rightarrow> 'a list" where
  "insert_sorted cmp x [] = [x]"
| "insert_sorted cmp x (y # ys) =
     (if (case cmp x y of None \<Rightarrow> 0 | Some v \<Rightarrow> v) \<le> 0 then x # y # ys
      else y # insert_sorted cmp x ys)"

definition array_sort :: "('a \<Rightarrow> 'a \<Rightarrow> int option) \<Rightarrow> 'a list \<Rightarrow> 'a list" where
  "array_sort cmp xs = foldr (insert_sorted cmp) xs []"

text \<open>\<^verbatim>\<open>ToNumber\<close> of a table value; None is NaN.\<close>

fun to_number :: "jsval \<Rightarrow> int option" where
  "to_number (Num n) = Some (int n)"
| "to_number Inherited = None"
| "to_number NonNumeric = None"

text \<open>The comparator \<^verbatim>\<open>([,a], [,b]) => b - a\<close>.\<close>

definition by_count_desc :: "jsstring \<times> jsval \<Rightarrow> jsstring \<times> jsval \<Rightarrow> int option" where
  "by_count_desc x y =
     (case (to_number (snd y), to_number (snd x)) of
        (Some b, Some a) \<Rightarrow> Some (b - a)
      | _ \<Rightarrow> None)"

section \<open>generateSimpleSummary\<close>

definition sentences :: "jsstring \<Rightarrow> jsstring list" where
  "sentences text = filter (\<lambda>s. length (trim s) > 10) (split_on is_sentence_end text)"

definition words :: "(jsstring \<Rightarrow> jsstring) \<Rightarrow> jsstring \<Rightarrow> jsstring list" where
  "words lc text = split_on is_space (lc text)"

definition cleanWord :: "jsstring \<Rightarrow> jsstring" where
  "cleanWord word = filter is_word_char word"

definition count_word :: "jsobject \<Rightarrow> jsstring \<Rightarrow> jsobject" where
  "count_word wc word =
     (if length (cleanWord word) > 3
      then set_prop wc (cleanWord word) (or_zero_plus_one (get_prop wc (cleanWord word)))
      else wc)"

definition wordCount :: "(jsstring \<Rightarrow> jsstring) \<Rightarrow> jsstring \<Rightarrow> jsobject" where
  "wordCount lc text = foldl count_word [] (words lc text)"

definition keywords_of :: "(jsstring \<Rightarrow> jsstring) \<Rightarrow> jsstring \<Rightarrow> jsstring list" where
  "keywords_of lc text =
     map fst (take 10 (array_sort by_count_desc (Object_entries (wordCount lc text))))"

definition keySentences :: "(jsstring \<Rightarrow> jsstring) \<Rightarrow> jsstring \<Rightarrow> jsstring list" where
  "keySentences lc text =
     take 5 (filter (\<lambda>sentence. list_ex (\<lambda>keyword. includes_str (lc sentence) keyword)
                                   (keywords_of lc text))
                    (sentences text))"

definition actionWords :: "jsstring list" where
  "actionWords =
     [js ''will'', js ''going to'', js ''plan to'', js ''need to'', js ''should'', js ''must'']"

definition actionSentences :: "(jsstring \<Rightarrow> jsstring) \<Rightarrow> jsstring \<Rightarrow> jsstring list" where
  "actionSentences lc text =
     filter (\<lambda>s. list_ex (\<lambda>word. includes_str (lc s) word) actionWords) (sentences text)"

text \<open>The template \<^verbatim>\<open>`\<bullet> ${s.trim()}`\<close>: U+2022, a space, the trimmed sentence.\<close>

definition bullet_line :: "jsstring \<Rightarrow> jsstring" where
  "bullet_line s = [8226, 32] @ trim s"

text \<open>
  \<^verbatim>\<open>customPrompt && customPrompt.toLowerCase().includes(w)\<close>: an absent prompt (None) and
  the empty string are falsy.
\<close>

fun prompt_includes :: "(jsstring \<Rightarrow> jsstring) \<Rightarrow> jsstring option \<Rightarrow> jsstring \<Rightarrow> bool" where
  "prompt_includes lc None w = False"
| "prompt_includes lc (Some p) w = (p \<noteq> [] \<and> includes_str (lc p) w)"

text \<open>The value of the variable \<^verbatim>\<open>summary\<close> before the final \<^verbatim>\<open>return\<close>.\<close>

definition summary :: "(jsstring \<Rightarrow> jsstring) \<Rightarrow> jsstring \<Rightarrow> jsstring option \<Rightarrow> jsstring" where
  "summary lc text customPrompt =
     (if prompt_includes lc customPrompt (js ''bullet'')
      then join [10] (map bullet_line (keySentences lc text))
      else if prompt_includes lc customPrompt (js ''action'')
      then join [10] (map bullet_line (actionSentences lc text))
      else join [32] (keySentences lc text))"

definition generateSimpleSummary ::
  "(jsstring \<Rightarrow> jsstring) \<Rightarrow> jsstring \<Rightarrow> jsstring option \<Rightarrow> jsstring" where
  "generateSimpleSummary lc text customPrompt =
     (if summary lc text customPrompt \<noteq> [] then summary lc text customPrompt
      else js ''Summary: '' @ join [32] (take 3 (sentences text)))"

section \<open>generateSummaryWithFreeAI\<close>

text \<open>
  The remote service is outside the repository. Its answer to one request is either a
  rejected promise (network error, timeout, error status), which the \<^verbatim>\<open>catch\<close> block
  receives, or a response, of which the code reads \<^verbatim>\<open>response.data[0].summary_text\<close>
  (None when \<^verbatim>\<open>data\<close>, \<^verbatim>\<open>data[0]\<close> or the field is missing).
\<close>

datatype remote_outcome = Rejected | Response "jsstring option"

text \<open>\<^verbatim>\<open>process.env.HUGGINGFACE_API_KEY\<close>; None when the variable is not set.\<close>

type_synonym env = "jsstring option"

text \<open>The \<^verbatim>\<open>inputs\<close> field of the request.\<close>

definition inputs :: "jsstring \<Rightarrow> jsstring option \<Rightarrow> jsstring" where
  "inputs text customPrompt =
     (case customPrompt of
        None \<Rightarrow> js ''Summarize this meeting transcript:''
      | Some p \<Rightarrow> if p \<noteq> [] then p else js ''Summarize this meeting transcript:'')
     @ [10, 10] @ text"

definition generateSummaryWithFreeAI ::
  "(jsstring \<Rightarrow> jsstring) \<Rightarrow> env \<Rightarrow> (jsstring \<Rightarrow> jsstring \<Rightarrow> remote_outcome)
   \<Rightarrow> jsstring \<Rightarrow> jsstring option \<Rightarrow> jsstring" where
  "generateSummaryWithFreeAI lc api_key post text customPrompt =
     (case api_key of
        None \<Rightarrow> generateSimpleSummary lc text customPrompt
      | Some k \<Rightarrow>
          if k = [] then generateSimpleSummary lc text customPrompt
          else (case post k (inputs text customPrompt) of
                  Rejected \<Rightarrow> generateSimpleSummary lc text customPrompt
                | Response None \<Rightarrow> generateSimpleSummary lc text customPrompt
                | Response (Some s) \<Rightarrow>
                    if s \<noteq> [] then s else generateSimpleSummary lc text customPrompt))"

section \<open>The store and the routes\<close>

text \<open>
  A document of the \<^verbatim>\<open>Summary\<close> collection; the field \<^verbatim>\<open>id\<close> is called \<open>doc_id\<close>
  here. \<open>createdAt\<close> is a time in milliseconds.
\<close>

record summary_doc =
  doc_id :: jsstring
  originalText :: jsstring
  customPrompt :: "jsstring option"
  generatedSummary :: jsstring
  editedSummary :: "jsstring option"
  createdAt :: nat

text \<open>
  The database: the documents of the collection, and whether the server can be reached.
  An operation on a database that cannot be reached throws.
\<close>

record database =
  summaries :: "summary_doc list"
  online :: bool

datatype db_error = ConnectionError | ValidationError | DuplicateKey

text \<open>
  \<^verbatim>\<open>new Summary(doc).save()\<close>: the schema requires \<^verbatim>\<open>id\<close>, \<^verbatim>\<open>originalText\<close> and
  \<^verbatim>\<open>generatedSummary\<close> (a required string must not be empty), and \<^verbatim>\<open>id\<close> is unique.
\<close>

definition save :: "database \<Rightarrow> summary_doc \<Rightarrow> db_error + database" where
  "save db doc =
     (if doc_id doc = [] \<or> originalText doc = [] \<or> generatedSummary doc = []
      then Inl ValidationError
      else if \<not> online db then Inl ConnectionError
      else if doc_id doc \<in> set (map doc_id (summaries db)) then Inl DuplicateKey
      else Inr (db\<lparr>summaries := summaries db @ [doc]\<rparr>))"

text \<open>
  \<^verbatim>\<open>Summary.findOneAndUpdate({ id }, { editedSummary }, { new: true })\<close>: the first document
  with this id gets the new \<^verbatim>\<open>editedSummary\<close> and is returned; null (None) when there is
  none.
\<close>

fun update_first :: "jsstring \<Rightarrow> jsstring \<Rightarrow> summary_doc list \<Rightarrow> summary_doc list" where
  "update_first i e [] = []"
| "update_first i e (d # ds) =
     (if doc_id d = i then d\<lparr>editedSummary := Some e\<rparr> # ds else d # update_first i e ds)"

definition findOneAndUpdate ::
  "database \<Rightarrow> jsstring \<Rightarrow> jsstring \<Rightarrow> db_error + (database \<times> summary_doc option)" where
  "findOneAndUpdate db i e =
     (if \<not> online db then Inl ConnectionError
      else Inr (db\<lparr>summaries := update_first i e (summaries db)\<rparr>,
                map_option (\<lambda>d. d\<lparr>editedSummary := Some e\<rparr>)
                  (find (\<lambda>d. doc_id d = i) (summaries db))))"

text \<open>The JSON bodies the two routes send, with the HTTP status.\<close>

datatype body =
    Created jsstring jsstring jsstring
  | Message jsstring
  | Error jsstring
  | ErrorDetails jsstring db_error

datatype response = Json nat body

text \<open>
  \<^verbatim>\<open>app.post('/api/summarize')\<close>. \<open>new_id\<close> is the result of \<^verbatim>\<open>uuidv4()\<close> and \<open>now\<close> that
  of \<^verbatim>\<open>Date.now\<close>; the request body may lack \<^verbatim>\<open>text\<close> and \<^verbatim>\<open>customPrompt\<close>. The
  parameter \<open>prompt\<close> is the \<^verbatim>\<open>customPrompt\<close> of the request.
\<close>

definition summarize ::
  "(jsstring \<Rightarrow> jsstring) \<Rightarrow> env \<Rightarrow> (jsstring \<Rightarrow> jsstring \<Rightarrow> remote_outcome)
   \<Rightarrow> jsstring \<Rightarrow> nat \<Rightarrow> database \<Rightarrow> jsstring option \<Rightarrow> jsstring option
   \<Rightarrow> database \<times> response" where
  "summarize lc api_key post new_id now db text prompt =
     (case text of
        None \<Rightarrow> (db, Json 400 (Error (js ''Text is required'')))
      | Some t \<Rightarrow>
          if t = [] \<or> length (trim t) = 0
          then (db, Json 400 (Error (js ''Text is required'')))
          else
            (let s = generateSummaryWithFreeAI lc api_key post t prompt;
                 newSummary = \<lparr>doc_id = new_id, originalText = t, customPrompt = prompt,
                               generatedSummary = s, editedSummary = None, createdAt = now\<rparr>
             in case save db newSummary of
                  Inl e \<Rightarrow> (db, Json 500 (ErrorDetails (js ''Failed to generate summary'') e))
                | Inr db' \<Rightarrow>
                    (db', Json 200 (Created new_id s
                            (js ''Summary generated successfully (using free AI)'')))))"

text \<open>
  \<^verbatim>\<open>app.put('/api/summaries/:id')\<close>, the same in both servers. The request body may lack
  \<^verbatim>\<open>editedSummary\<close>.
\<close>

definition update_summary ::
  "database \<Rightarrow> jsstring \<Rightarrow> jsstring option \<Rightarrow> database \<times> response" where
  "update_summary db i edited =
     (case edited of
        None \<Rightarrow> (db, Json 400 (Error (js ''Edited summary is required'')))
      | Some e \<Rightarrow>
          if e = [] then (db, Json 400 (Error (js ''Edited summary is required'')))
          else (case findOneAndUpdate db i e of
                  Inl err \<Rightarrow> (db, Json 500 (Error (js ''Failed to update summary'')))
                | Inr (db', None) \<Rightarrow> (db', Json 404 (Error (js ''Summary not found'')))
                | Inr (db', Some d) \<Rightarrow>
                    (db', Json 200 (Message (js ''Summary updated successfully'')))))"

section \<open>Notions the claims are stated with\<close>

text \<open>The lines of a string: the pieces between its line feeds.\<close>

fun lines_of :: "jsstring \<Rightarrow> jsstring list" where
  "lines_of [] = [[]]"
| "lines_of (c # cs) =
     (if c = 10 then [] # lines_of cs
      else (case lines_of cs of [] \<Rightarrow> [[c]] | l # ls \<Rightarrow> (c # l) # ls))"

text \<open>
  The words that enter the frequency table, in the order of the transcript and with their
  repetitions: lower-cased, split at white space, stripped of non-word characters, longer
  than 3.
\<close>

definition cleaned :: "(jsstring \<Rightarrow> jsstring) \<Rightarrow> jsstring \<Rightarrow> jsstring list" where
  "cleaned lc t = filter (\<lambda>w. length w > 3) (map cleanWord (words lc t))"

text \<open>The distinct elements of a list, each at the place of its first occurrence.\<close>

definition first_occurrences :: "'a list \<Rightarrow> 'a list" where
  "first_occurrences ws = rev (remdups (rev ws))"

text \<open>
  The keys \<open>ks\<close> in descending order of their frequency in \<open>ws\<close>; \<open>sort_key\<close> is stable,
  so keys of equal frequency keep the order they have in \<open>ks\<close>.
\<close>

definition by_frequency :: "jsstring list \<Rightarrow> jsstring list \<Rightarrow> jsstring list" where
  "by_frequency ws ks = sort_key (\<lambda>w. - int (count_list ws w)) ks"

text \<open>
  The ranking in the words of the specification: the ten most frequent words, ties broken
  by first occurrence in the transcript.
\<close>

definition ranked_by_first_occurrence ::
  "(jsstring \<Rightarrow> jsstring) \<Rightarrow> jsstring \<Rightarrow> jsstring list" where
  "ranked_by_first_occurrence lc t =
     take 10 (by_frequency (cleaned lc t) (first_occurrences (cleaned lc t)))"

text \<open>
  The order in which an object lists its keys: array indices first, ascending, then the
  other keys in the order given.
\<close>

definition key_order :: "jsstring list \<Rightarrow> jsstring list" where
  "key_order ks =
     sort_key index_value (filter is_array_index ks) @ filter (\<lambda>k. \<not> is_array_index k) ks"

text \<open>The ranking with ties broken by the key order of the table.\<close>

definition ranked_by_key_order :: "(jsstring \<Rightarrow> jsstring) \<Rightarrow> jsstring \<Rightarrow> jsstring list" where
  "ranked_by_key_order lc t =
     take 10 (by_frequency (cleaned lc t) (key_order (first_occurrences (cleaned lc t))))"

text \<open>A word that names a property of \<^verbatim>\<open>Object.prototype\<close>.\<close>

definition inherited_name :: "jsstring \<Rightarrow> bool" where
  "inherited_name w = (w \<in> set prototype_methods \<or> w = proto_accessor)"

text \<open>The loop of \<open>wordCount\<close> over words that are already cleaned and long enough.\<close>

definition table :: "jsstring list \<Rightarrow> jsobject" where
  "table ws = foldl (\<lambda>wc w. set_prop wc w (or_zero_plus_one (get_prop wc w))) [] ws"

text \<open>
  The remote tier gives no summary: the credential is absent (not set, or empty), the call
  is rejected, or the response has no non-empty \<^verbatim>\<open>summary_text\<close>.
\<close>

definition remote_failed ::
  "env \<Rightarrow> (jsstring \<Rightarrow> jsstring \<Rightarrow> remote_outcome) \<Rightarrow> jsstring \<Rightarrow> jsstring option \<Rightarrow> bool" where
  "remote_failed api_key post t prompt =
     (case api_key of
        None \<Rightarrow> True
      | Some k \<Rightarrow> k = [] \<or> post k (inputs t prompt) = Rejected
                 \<or> post k (inputs t prompt) = Response None
                 \<or> post k (inputs t prompt) = Response (Some []))"

text \<open>A sentence with an action marker, for transcripts with any number of them.\<close>

definition must_sentence :: jsstring where
  "must_sentence = js ''We must do it now''"

section \<open>Concrete runs\<close>

text \<open>The definitions a concrete run unfolds.\<close>

lemmas run_defs =
  js_def is_sentence_end_def is_space_def is_word_char_def trim_def includes_str_def
  ascii_toLowerCase_def sentences_def words_def cleanWord_def count_word_def wordCount_def
  keywords_of_def keySentences_def actionWords_def actionSentences_def bullet_line_def
  summary_def generateSimpleSummary_def prototype_methods_def proto_accessor_def
  get_prop_def set_prop_def is_digit_def index_value_def is_array_index_def
  Object_entries_def array_sort_def by_count_desc_def sublist_Cons_right

lemmas rank_defs =
  cleaned_def first_occurrences_def by_frequency_def ranked_by_first_occurrence_def
  key_order_def ranked_by_key_order_def inherited_name_def

section \<open>Non-empty output of the local pipeline\<close>

lemma js_Summary_nonempty [simp]: "js ''Summary: '' \<noteq> []"
  by (simp add: js_def)

lemma generateSimpleSummary_nonempty: "generateSimpleSummary lc t prompt \<noteq> []"
  by (simp add: generateSimpleSummary_def)

lemma trim_Nil [simp]: "trim [] = []"
  by (simp add: trim_def)

lemma generateSummaryWithFreeAI_no_key:
  "generateSummaryWithFreeAI lc None post t prompt = generateSimpleSummary lc t prompt"
  by (simp add: generateSummaryWithFreeAI_def)

lemma summarize_valid:
  assumes "trim t \<noteq> []"
  shows "summarize lc api_key post new_id now db (Some t) prompt =
     (case save db \<lparr>doc_id = new_id, originalText = t, customPrompt = prompt,
                     generatedSummary = generateSummaryWithFreeAI lc api_key post t prompt,
                     editedSummary = None, createdAt = now\<rparr> of
        Inl e \<Rightarrow> (db, Json 500 (ErrorDetails (js ''Failed to generate summary'') e))
      | Inr db' \<Rightarrow>
          (db', Json 200 (Created new_id (generateSummaryWithFreeAI lc api_key post t prompt)
                   (js ''Summary generated successfully (using free AI)''))))"
  using assms by (auto simp: summarize_def Let_def)

lemma save_ok:
  "new_id \<noteq> [] \<Longrightarrow> t \<noteq> [] \<Longrightarrow> g \<noteq> [] \<Longrightarrow> online db
   \<Longrightarrow> new_id \<notin> set (map doc_id (summaries db))
   \<Longrightarrow> save db \<lparr>doc_id = new_id, originalText = t, customPrompt = prompt,
                  generatedSummary = g, editedSummary = e, createdAt = now\<rparr>
       = Inr (db\<lparr>summaries := summaries db @
                [\<lparr>doc_id = new_id, originalText = t, customPrompt = prompt,
                  generatedSummary = g, editedSummary = e, createdAt = now\<rparr>]\<rparr>)"
  by (simp add: save_def)

text \<open>
  C10: \<open>generateSimpleSummary\<close> returns a non-empty string for every transcript and every
  prompt, also for the empty transcript, a transcript of white space only and a
  transcript without a sentence of more than 10 characters: when the variable
  \<open>summary\<close> is empty the result starts with the literal prefix \<open>Summary: \<close>. No
  sentence in the transcript is needed for that.
\<close>

theorem C10_generateSimpleSummary_never_empty:
  "generateSimpleSummary lc t prompt \<noteq> []
   \<and> (summary lc t prompt = []
        \<longrightarrow> prefix (js ''Summary: '') (generateSimpleSummary lc t prompt))"
  by (simp add: generateSimpleSummary_def)

theorem C10_witness:
  "summary ascii_toLowerCase [] None = []
   \<and> generateSimpleSummary ascii_toLowerCase [] None = js ''Summary: ''
   \<and> generateSimpleSummary ascii_toLowerCase (js ''   '') (Some (js ''bullet points'')) \<noteq> []
   \<and> generateSimpleSummary ascii_toLowerCase (js ''Hi. Ok. Go.'') (Some (js ''action'')) \<noteq> []"
proof -
  have h: "summary ascii_toLowerCase [] None = []"
    by (simp add: run_defs)
  have "prefix (js ''Summary: '') (generateSimpleSummary ascii_toLowerCase [] None)"
    using C10_generateSimpleSummary_never_empty [of ascii_toLowerCase "[]" None] h by blast
  moreover have "generateSimpleSummary ascii_toLowerCase [] None = js ''Summary: ''"
    by (simp add: run_defs)
  ultimately show ?thesis
    using h C10_generateSimpleSummary_never_empty [of ascii_toLowerCase "js ''   ''"
        "Some (js ''bullet points'')"]
      C10_generateSimpleSummary_never_empty [of ascii_toLowerCase "js ''Hi. Ok. Go.''"
        "Some (js ''action'')"]
    by blast
qed

text \<open>
  C1: for every non-empty transcript \<open>t\<close> with a sentence of at least 10 characters,
  \<open>generateSimpleSummary\<close> returns a non-empty string, whatever the prompt; and the
  document that the route stores on the local path (no credential) has this non-empty
  string as its \<open>generatedSummary\<close>.
\<close>

theorem C1_local_summary_nonempty:
  assumes "t \<noteq> []" and "\<exists>s\<in>set (split_on is_sentence_end t). 10 \<le> length s"
  shows "generateSimpleSummary lc t prompt \<noteq> []
    \<and> (\<forall>db' b. summarize lc None post new_id now db (Some t) prompt = (db', Json 200 b)
          \<longrightarrow> (\<exists>d. summaries db' = summaries db @ [d]
                 \<and> generatedSummary d = generateSimpleSummary lc t prompt
                 \<and> generatedSummary d \<noteq> []))"
proof
  show "generateSimpleSummary lc t prompt \<noteq> []"
    by (rule generateSimpleSummary_nonempty)
  show "\<forall>db' b. summarize lc None post new_id now db (Some t) prompt = (db', Json 200 b)
          \<longrightarrow> (\<exists>d. summaries db' = summaries db @ [d]
                 \<and> generatedSummary d = generateSimpleSummary lc t prompt
                 \<and> generatedSummary d \<noteq> [])"
    by (auto simp: summarize_def Let_def generateSummaryWithFreeAI_no_key save_def
        generateSimpleSummary_nonempty split: if_splits sum.splits)
qed

theorem C1_witness:
  "js ''This is a test.'' \<noteq> []
   \<and> (\<exists>s\<in>set (split_on is_sentence_end (js ''This is a test.'')). 10 \<le> length s)
   \<and> generateSimpleSummary ascii_toLowerCase (js ''This is a test.'') None \<noteq> []
   \<and> snd (summarize ascii_toLowerCase None (\<lambda>k i. Rejected) (js ''id-1'') 0
            \<lparr>summaries = [], online = True\<rparr> (Some (js ''This is a test.'')) None)
       = Json 200 (Created (js ''id-1'')
           (generateSimpleSummary ascii_toLowerCase (js ''This is a test.'') None)
           (js ''Summary generated successfully (using free AI)''))
   \<and> map generatedSummary
        (summaries (fst (summarize ascii_toLowerCase None (\<lambda>k i. Rejected) (js ''id-1'') 0
            \<lparr>summaries = [], online = True\<rparr> (Some (js ''This is a test.'')) None)))
       = [generateSimpleSummary ascii_toLowerCase (js ''This is a test.'') None]"
proof -
  let ?t = "js ''This is a test.''"
  let ?db = "\<lparr>summaries = [], online = True\<rparr>"
  let ?run = "summarize ascii_toLowerCase None (\<lambda>k i. Rejected) (js ''id-1'') 0 ?db
     (Some ?t) None"
  have h1: "?t \<noteq> []"
    by (simp add: js_def)
  have h2: "\<exists>s\<in>set (split_on is_sentence_end ?t). 10 \<le> length s"
    by (simp add: js_def is_sentence_end_def)
  have v: "trim ?t \<noteq> []"
    by (simp add: run_defs)
  have i: "js ''id-1'' \<noteq> []"
    by (simp add: js_def)
  have run: "?run = (fst ?run, Json 200 (Created (js ''id-1'')
           (generateSimpleSummary ascii_toLowerCase ?t None)
           (js ''Summary generated successfully (using free AI)'')))"
    using h1 i by (simp add: summarize_valid [OF v] generateSummaryWithFreeAI_no_key
        save_ok generateSimpleSummary_nonempty)
  from C1_local_summary_nonempty [OF h1 h2, where lc = ascii_toLowerCase and prompt = None
      and post = "\<lambda>k i. Rejected" and new_id = "js ''id-1''" and now = 0 and db = ?db] run
  have "generateSimpleSummary ascii_toLowerCase ?t None \<noteq> []
    \<and> (\<exists>d. summaries (fst ?run) = summaries ?db @ [d]
         \<and> generatedSummary d = generateSimpleSummary ascii_toLowerCase ?t None)"
    by blast
  then have "generateSimpleSummary ascii_toLowerCase ?t None \<noteq> []
    \<and> map generatedSummary (summaries (fst ?run))
        = [generateSimpleSummary ascii_toLowerCase ?t None]"
    by auto
  with h1 h2 run show ?thesis
    by (metis snd_conv)
qed

text \<open>
  C2: when the remote tier gives no summary (the credential is absent, the call is
  rejected, or the response lacks a non-empty summary field),
  \<open>generateSummaryWithFreeAI\<close> returns what \<open>generateSimpleSummary\<close> returns on the same
  transcript and prompt; the route then answers exactly as it does without a credential,
  so nothing of the remote failure reaches the caller; and for a request with a
  non-blank text whose record the store accepts the answer is the success response with
  the local summary.
\<close>

theorem C2_remote_failure_absorbed:
  assumes "remote_failed api_key post t prompt"
  shows "generateSummaryWithFreeAI lc api_key post t prompt = generateSimpleSummary lc t prompt
    \<and> summarize lc api_key post new_id now db (Some t) prompt
        = summarize lc None post new_id now db (Some t) prompt
    \<and> (trim t \<noteq> [] \<and> new_id \<noteq> [] \<and> online db \<and> new_id \<notin> set (map doc_id (summaries db))
        \<longrightarrow> snd (summarize lc api_key post new_id now db (Some t) prompt)
            = Json 200 (Created new_id (generateSimpleSummary lc t prompt)
                (js ''Summary generated successfully (using free AI)'')))"
proof -
  have g: "generateSummaryWithFreeAI lc api_key post t prompt = generateSimpleSummary lc t prompt"
    using assms
    by (auto simp: remote_failed_def generateSummaryWithFreeAI_def split: option.splits)
  have s: "summarize lc api_key post new_id now db (Some t) prompt
        = summarize lc None post new_id now db (Some t) prompt"
    by (simp add: summarize_def g generateSummaryWithFreeAI_no_key)
  have "snd (summarize lc api_key post new_id now db (Some t) prompt)
            = Json 200 (Created new_id (generateSimpleSummary lc t prompt)
                (js ''Summary generated successfully (using free AI)''))"
    if "trim t \<noteq> []" "new_id \<noteq> []" "online db" "new_id \<notin> set (map doc_id (summaries db))"
  proof -
    have "t \<noteq> []" using that(1) by auto
    then show ?thesis
      using that by (simp add: summarize_valid g save_ok generateSimpleSummary_nonempty)
  qed
  with g s show ?thesis by blast
qed

theorem C2_witness:
  "remote_failed (Some (js ''hf_key'')) (\<lambda>k i. Rejected) (js ''This is a test.'') None
   \<and> generateSummaryWithFreeAI ascii_toLowerCase (Some (js ''hf_key'')) (\<lambda>k i. Rejected)
        (js ''This is a test.'') None = js ''This is a test''
   \<and> snd (summarize ascii_toLowerCase (Some (js ''hf_key'')) (\<lambda>k i. Rejected) (js ''id-1'') 0
            \<lparr>summaries = [], online = True\<rparr> (Some (js ''This is a test.'')) None)
       = Json 200 (Created (js ''id-1'') (js ''This is a test'')
           (js ''Summary generated successfully (using free AI)''))"
proof -
  let ?t = "js ''This is a test.''"
  let ?db = "\<lparr>summaries = [], online = True\<rparr>"
  have h: "remote_failed (Some (js ''hf_key'')) (\<lambda>k i. Rejected) ?t None"
    by (simp add: remote_failed_def)
  have v: "generateSimpleSummary ascii_toLowerCase ?t None = js ''This is a test''"
    by (simp add: run_defs)
  have c: "trim ?t \<noteq> [] \<and> js ''id-1'' \<noteq> [] \<and> online ?db
      \<and> js ''id-1'' \<notin> set (map doc_id (summaries ?db))"
    by (simp add: run_defs)
  note inst = C2_remote_failure_absorbed [OF h, where lc = ascii_toLowerCase
      and new_id = "js ''id-1''" and now = 0 and db = ?db]
  from inst have g: "generateSummaryWithFreeAI ascii_toLowerCase (Some (js ''hf_key''))
      (\<lambda>k i. Rejected) ?t None = generateSimpleSummary ascii_toLowerCase ?t None"
    by blast
  from inst c have r: "snd (summarize ascii_toLowerCase (Some (js ''hf_key'')) (\<lambda>k i. Rejected)
      (js ''id-1'') 0 ?db (Some ?t) None)
    = Json 200 (Created (js ''id-1'') (generateSimpleSummary ascii_toLowerCase ?t None)
        (js ''Summary generated successfully (using free AI)''))"
    by blast
  from h g r show ?thesis
    by (simp only: v simp_thms)
qed

section \<open>The keyword ranker\<close>

lemma first_occurrences_snoc:
  "first_occurrences (ws @ [w]) =
     (if w \<in> set ws then first_occurrences ws else first_occurrences ws @ [w])"
  by (simp add: first_occurrences_def)

lemma set_first_occurrences [simp]: "set (first_occurrences ws) = set ws"
  by (simp add: first_occurrences_def)

lemma distinct_first_occurrences [simp]: "distinct (first_occurrences ws)"
  by (simp add: first_occurrences_def)

lemma count_list_snoc: "count_list (ws @ [w]) k = count_list ws k + (if k = w then 1 else 0)"
  by (induction ws) auto

lemma count_list_zero: "w \<notin> set ws \<Longrightarrow> count_list ws w = 0"
  by (induction ws) auto

text \<open>The loop skips the words that are too short and counts the others.\<close>

lemma foldl_count_word:
  "foldl count_word obj raw =
   foldl (\<lambda>wc w. set_prop wc w (or_zero_plus_one (get_prop wc w))) obj
     (filter (\<lambda>w. length w > 3) (map cleanWord raw))"
  by (induction raw arbitrary: obj) (simp_all add: count_word_def)

lemma table_snoc:
  "table (ws @ [w]) = set_prop (table ws) w (or_zero_plus_one (get_prop (table ws) w))"
  by (simp add: table_def)

text \<open>
  Without inherited names among the words, the keys of the table are the words in the
  order of their first occurrence and each value is the number of occurrences.
\<close>

lemma table_inv:
  "\<forall>w\<in>set ws. \<not> inherited_name w \<Longrightarrow>
   map fst (table ws) = first_occurrences ws
   \<and> (\<forall>k. map_of (table ws) k = (if k \<in> set ws then Some (Num (count_list ws k)) else None))"
proof (induction ws rule: rev_induct)
  case Nil
  show ?case by (simp add: table_def first_occurrences_def)
next
  case (snoc w ws)
  then have keys: "map fst (table ws) = first_occurrences ws"
    and vals: "\<And>k. map_of (table ws) k
        = (if k \<in> set ws then Some (Num (count_list ws k)) else None)"
    and w: "\<not> inherited_name w"
    by auto
  have g: "or_zero_plus_one (get_prop (table ws) w) = Num (count_list ws w + 1)"
    using w by (simp add: get_prop_def vals inherited_name_def count_list_zero)
  have t: "table (ws @ [w]) = AList.update w (Num (count_list ws w + 1)) (table ws)"
    using w by (simp add: table_snoc g set_prop_def inherited_name_def)
  have "map fst (table (ws @ [w])) = first_occurrences (ws @ [w])"
    by (simp add: t update_keys keys first_occurrences_snoc)
  moreover have "map_of (table (ws @ [w])) k =
      (if k \<in> set (ws @ [w]) then Some (Num (count_list (ws @ [w]) k)) else None)" for k
    by (simp add: t update_conv' vals count_list_snoc)
  ultimately show ?case by blast
qed

lemma alist_by_keys:
  assumes "distinct (map fst al)"
  shows "al = map (\<lambda>k. (k, the (map_of al k))) (map fst al)"
proof -
  have "map (\<lambda>p. (fst p, the (map_of al (fst p)))) al = al"
  proof (rule map_idI)
    fix p assume "p \<in> set al"
    with assms have "map_of al (fst p) = Some (snd p)"
      by (intro map_of_is_SomeI) simp_all
    then show "(fst p, the (map_of al (fst p))) = p" by simp
  qed
  then show ?thesis by (simp add: comp_def)
qed

lemma table_eq:
  assumes "\<forall>w\<in>set ws. \<not> inherited_name w"
  shows "table ws = map (\<lambda>k. (k, Num (count_list ws k))) (first_occurrences ws)"
proof -
  from table_inv [OF assms]
  have keys: "map fst (table ws) = first_occurrences ws"
    and vals: "\<And>k. map_of (table ws) k
        = (if k \<in> set ws then Some (Num (count_list ws k)) else None)"
    by auto
  have "distinct (map fst (table ws))" by (simp add: keys)
  then have "table ws = map (\<lambda>k. (k, the (map_of (table ws) k))) (map fst (table ws))"
    by (rule alist_by_keys)
  also have "\<dots> = map (\<lambda>k. (k, Num (count_list ws k))) (first_occurrences ws)"
    by (simp add: keys vals)
  finally show ?thesis .
qed

lemma insort_key_map:
  "insort_key g (f x) (map f xs) = map f (insort_key (\<lambda>x. g (f x)) x xs)"
  by (induction xs) auto

lemma sort_key_map: "sort_key g (map f xs) = map f (sort_key (\<lambda>x. g (f x)) xs)"
  by (induction xs) (auto simp: insort_key_map)

lemma Object_entries_table:
  "Object_entries (map (\<lambda>k. (k, c k)) ks) = map (\<lambda>k. (k, c k)) (key_order ks)"
  by (simp add: Object_entries_def key_order_def filter_map comp_def sort_key_map)

text \<open>On numbers the comparator sorts as \<open>sort_key\<close> does on the negated counts.\<close>

lemma insert_sorted_counts:
  "insert_sorted by_count_desc (k, Num (c k)) (map (\<lambda>k. (k, Num (c k))) ks)
   = map (\<lambda>k. (k, Num (c k))) (insort_key (\<lambda>w. - int (c w)) k ks)"
  by (induction ks) (auto simp: by_count_desc_def)

lemma array_sort_counts:
  "array_sort by_count_desc (map (\<lambda>k. (k, Num (c k))) ks)
   = map (\<lambda>k. (k, Num (c k))) (sort_key (\<lambda>w. - int (c w)) ks)"
  by (induction ks) (auto simp: array_sort_def insert_sorted_counts)

lemma keywords_of_eq:
  assumes "\<forall>w\<in>set (cleaned lc t). \<not> inherited_name w"
  shows "keywords_of lc t = ranked_by_key_order lc t"
proof -
  have "wordCount lc t = table (cleaned lc t)"
    by (simp add: wordCount_def foldl_count_word table_def cleaned_def)
  then have "wordCount lc t
      = map (\<lambda>k. (k, Num (count_list (cleaned lc t) k))) (first_occurrences (cleaned lc t))"
    using table_eq [OF assms] by simp
  then show ?thesis
    by (simp add: keywords_of_def ranked_by_key_order_def by_frequency_def
        Object_entries_table array_sort_counts take_map comp_def)
qed

lemma key_order_no_index: "\<forall>k\<in>set ks. \<not> is_array_index k \<Longrightarrow> key_order ks = ks"
  by (simp add: key_order_def filter_empty_conv)

lemma set_key_order [simp]: "set (key_order ks) = set ks"
  by (auto simp: key_order_def)

lemma ranked_sorted:
  "sorted_wrt (\<lambda>a b. count_list ws b \<le> count_list ws a) (take n (by_frequency ws ks))"
proof -
  have "sorted (map (\<lambda>w. - int (count_list ws w)) (by_frequency ws ks))"
    by (simp add: by_frequency_def)
  then have "sorted_wrt (\<lambda>a b. count_list ws b \<le> count_list ws a) (by_frequency ws ks)"
    by (simp add: sorted_map)
  then show ?thesis by (rule sorted_wrt_take)
qed

text \<open>
  C3, as amended: for every transcript none of whose table words names a property of
  \<^verbatim>\<open>Object.prototype\<close>, the keywords are the first 10 of the distinct table words (lower-cased,
  split at white space, non-word characters stripped, longer than 3) in descending order of
  frequency, ties broken by the key order of the table: words that are array indices first,
  in ascending numeric order, then the other words by first occurrence. Where no table word
  is an array index either, ties are broken by first occurrence. There are at most 10
  keywords, each is a table word, and their frequencies descend. The result is a function
  of the transcript, so two runs on the same transcript give the same list.
\<close>

theorem C3_keyword_ranking:
  assumes "\<forall>w\<in>set (cleaned lc t). \<not> inherited_name w"
  shows "keywords_of lc t = ranked_by_key_order lc t
    \<and> ((\<forall>w\<in>set (cleaned lc t). \<not> is_array_index w)
          \<longrightarrow> keywords_of lc t = ranked_by_first_occurrence lc t)
    \<and> length (keywords_of lc t) \<le> 10
    \<and> set (keywords_of lc t) \<subseteq> set (cleaned lc t)
    \<and> sorted_wrt (\<lambda>a b. count_list (cleaned lc t) b \<le> count_list (cleaned lc t) a)
          (keywords_of lc t)"
proof -
  have e: "keywords_of lc t = ranked_by_key_order lc t"
    using assms by (rule keywords_of_eq)
  have "ranked_by_key_order lc t = ranked_by_first_occurrence lc t"
    if "\<forall>w\<in>set (cleaned lc t). \<not> is_array_index w"
    using that
    by (simp add: ranked_by_key_order_def ranked_by_first_occurrence_def key_order_no_index)
  moreover have "length (ranked_by_key_order lc t) \<le> 10"
    by (simp add: ranked_by_key_order_def)
  moreover have "set (ranked_by_key_order lc t) \<subseteq> set (cleaned lc t)"
    by (auto simp: ranked_by_key_order_def by_frequency_def dest!: in_set_takeD)
  moreover have "sorted_wrt (\<lambda>a b. count_list (cleaned lc t) b \<le> count_list (cleaned lc t) a)
          (ranked_by_key_order lc t)"
    unfolding ranked_by_key_order_def by (rule ranked_sorted)
  ultimately show ?thesis by (simp add: e)
qed

lemma cleaned_revenue:
  "cleaned ascii_toLowerCase (js ''Revenue grew in 2024. Revenue is up.'')
     = [js ''revenue'', js ''grew'', js ''2024'', js ''revenue'']"
  by (simp add: run_defs cleaned_def)

lemma cleaned_budget:
  "cleaned ascii_toLowerCase (js ''Review the budget before the next budget meeting'')
     = [js ''review'', js ''budget'', js ''before'', js ''next'', js ''budget'', js ''meeting'']"
  by (simp add: run_defs cleaned_def)

theorem C3_witness:
  "list_all (\<lambda>w. \<not> inherited_name w)
     (cleaned ascii_toLowerCase (js ''Revenue grew in 2024. Revenue is up.''))
   \<and> keywords_of ascii_toLowerCase (js ''Revenue grew in 2024. Revenue is up.'')
       = [js ''revenue'', js ''2024'', js ''grew'']
   \<and> list_all (\<lambda>w. \<not> inherited_name w \<and> \<not> is_array_index w)
       (cleaned ascii_toLowerCase (js ''Review the budget before the next budget meeting''))
   \<and> keywords_of ascii_toLowerCase (js ''Review the budget before the next budget meeting'')
       = [js ''budget'', js ''review'', js ''before'', js ''next'', js ''meeting'']"
proof -
  let ?r = "js ''Revenue grew in 2024. Revenue is up.''"
  let ?b = "js ''Review the budget before the next budget meeting''"
  have r1: "list_all (\<lambda>w. \<not> inherited_name w) (cleaned ascii_toLowerCase ?r)"
    unfolding cleaned_revenue
    by (simp add: inherited_name_def prototype_methods_def proto_accessor_def js_def)
  have b1: "list_all (\<lambda>w. \<not> inherited_name w \<and> \<not> is_array_index w) (cleaned ascii_toLowerCase ?b)"
    unfolding cleaned_budget
    by (simp add: inherited_name_def prototype_methods_def proto_accessor_def js_def
        is_array_index_def is_digit_def)
  have r2: "ranked_by_key_order ascii_toLowerCase ?r = [js ''revenue'', js ''2024'', js ''grew'']"
    unfolding ranked_by_key_order_def cleaned_revenue
    by (simp add: first_occurrences_def by_frequency_def key_order_def js_def
        is_array_index_def is_digit_def index_value_def)
  have b2: "ranked_by_first_occurrence ascii_toLowerCase ?b
      = [js ''budget'', js ''review'', js ''before'', js ''next'', js ''meeting'']"
    unfolding ranked_by_first_occurrence_def cleaned_budget
    by (simp add: first_occurrences_def by_frequency_def js_def)
  have hr: "\<forall>w\<in>set (cleaned ascii_toLowerCase ?r). \<not> inherited_name w"
    using r1 by (simp add: list_all_iff)
  have hb: "\<forall>w\<in>set (cleaned ascii_toLowerCase ?b). \<not> inherited_name w"
    "\<forall>w\<in>set (cleaned ascii_toLowerCase ?b). \<not> is_array_index w"
    using b1 by (simp_all add: list_all_iff)
  have "keywords_of ascii_toLowerCase ?r = ranked_by_key_order ascii_toLowerCase ?r"
    using C3_keyword_ranking [OF hr] by blast
  moreover have "keywords_of ascii_toLowerCase ?b = ranked_by_first_occurrence ascii_toLowerCase ?b"
    using C3_keyword_ranking [OF hb(1)] hb(2) by blast
  ultimately show ?thesis
    using r1 b1 by (simp only: r2 b2 simp_thms)
qed

text \<open>
  The claim as stated fails on a transcript with a year in it: the three words occur once
  each, \<open>2024\<close> occurs last and is ranked first.
\<close>

theorem C3_counterexample:
  "keywords_of ascii_toLowerCase (js ''Revenue grew in 2024.'')
     = [js ''2024'', js ''revenue'', js ''grew'']
   \<and> ranked_by_first_occurrence ascii_toLowerCase (js ''Revenue grew in 2024.'')
     = [js ''revenue'', js ''grew'', js ''2024'']"
  by (simp add: run_defs rank_defs)

text \<open>
  A word that names an inherited property is not counted: the table reads the inherited
  function where it expects a number, and stores a string that is not numeric.
\<close>

lemma wordCount_constructor:
  "wordCount ascii_toLowerCase (js ''The constructor calls the constructor'')
     = [(js ''constructor'', NonNumeric), (js ''calls'', Num 1)]"
  by (simp add: run_defs)

section \<open>Sentence selection\<close>

lemma split_on_piece:
  "\<forall>x\<in>set p. \<not> sep x \<Longrightarrow> sep c \<Longrightarrow> (rest = [] \<or> \<not> sep (hd rest))
   \<Longrightarrow> split_on sep (p @ c # rest) = p # split_on sep rest"
  by (induction p) (cases rest; auto)+

lemma split_on_replicate:
  assumes "p \<noteq> []" "\<forall>x\<in>set p. \<not> sep x" "sep c"
  shows "split_on sep (concat (replicate n (p @ [c]))) = replicate n p @ [[]]"
proof (induction n)
  case 0
  show ?case by simp
next
  case (Suc n)
  let ?rest = "concat (replicate n (p @ [c]))"
  have "?rest = [] \<or> \<not> sep (hd ?rest)"
    using assms by (cases n) (auto simp: hd_append)
  then have "split_on sep (p @ c # ?rest) = p # split_on sep ?rest"
    using assms by (intro split_on_piece) auto
  then show ?case by (simp add: Suc.IH)
qed

lemma must_sentence_props:
  "must_sentence \<noteq> []" "\<forall>x\<in>set must_sentence. \<not> is_sentence_end x"
  "10 < length (trim must_sentence)"
  "list_ex (\<lambda>word. includes_str (ascii_toLowerCase must_sentence) word) actionWords"
  by (simp_all add: must_sentence_def run_defs)

text \<open>A transcript of \<open>n\<close> sentences with a marker has \<open>n\<close> action sentences.\<close>

lemma actionSentences_unbounded:
  "length (actionSentences ascii_toLowerCase (concat (replicate n (must_sentence @ [46])))) = n"
proof -
  have "split_on is_sentence_end (concat (replicate n (must_sentence @ [46])))
      = replicate n must_sentence @ [[]]"
    using must_sentence_props by (intro split_on_replicate) (auto simp: is_sentence_end_def)
  then have "sentences (concat (replicate n (must_sentence @ [46]))) = replicate n must_sentence"
    using must_sentence_props(3) by (simp add: sentences_def)
  then show ?thesis
    using must_sentence_props(4) by (simp add: actionSentences_def)
qed

text \<open>
  C4: the keyword-based selection has at most 5 sentences, in the order of the transcript
  (it is the first 5 of the sentences whose lower-cased text contains a keyword), and each
  of them contains a keyword as a substring. The action selection keeps every sentence
  whose lower-cased text contains one of the six markers, and its length has no bound:
  every number is the length of the action selection of some transcript. The sentences
  are those of \<open>sentences\<close>: the pieces between the runs of sentence ends whose trimmed
  length exceeds 10.
\<close>

theorem C4_selection:
  "length (keySentences lc t) \<le> 5
   \<and> subseq (keySentences lc t) (sentences t)
   \<and> (\<forall>s\<in>set (keySentences lc t). \<exists>k\<in>set (keywords_of lc t). includes_str (lc s) k)
   \<and> keySentences lc t
       = take 5 (filter (\<lambda>s. \<exists>k\<in>set (keywords_of lc t). includes_str (lc s) k) (sentences t))
   \<and> actionSentences lc t
       = filter (\<lambda>s. \<exists>w\<in>set actionWords. includes_str (lc s) w) (sentences t)
   \<and> actionWords = [js ''will'', js ''going to'', js ''plan to'', js ''need to'', js ''should'',
                    js ''must'']
   \<and> (\<forall>n. \<exists>t'. length (actionSentences ascii_toLowerCase t') = n)"
proof -
  have k: "keySentences lc t
       = take 5 (filter (\<lambda>s. \<exists>k\<in>set (keywords_of lc t). includes_str (lc s) k) (sentences t))"
    by (simp add: keySentences_def list_ex_iff)
  have "subseq (take 5 (filter (\<lambda>s. \<exists>k\<in>set (keywords_of lc t). includes_str (lc s) k)
            (sentences t)))
          (filter (\<lambda>s. \<exists>k\<in>set (keywords_of lc t). includes_str (lc s) k) (sentences t))"
    by (rule prefix_imp_subseq [OF take_is_prefix])
  then have s: "subseq (keySentences lc t) (sentences t)"
    unfolding k by (rule subseq_order.order_trans [OF _ subseq_filter_left])
  have m: "\<forall>s\<in>set (keySentences lc t). \<exists>k\<in>set (keywords_of lc t). includes_str (lc s) k"
    unfolding k by (auto dest: in_set_takeD)
  have a: "actionSentences lc t
       = filter (\<lambda>s. \<exists>w\<in>set actionWords. includes_str (lc s) w) (sentences t)"
    by (simp add: actionSentences_def list_ex_iff)
  have u: "\<forall>n. \<exists>t'. length (actionSentences ascii_toLowerCase t') = n"
    using actionSentences_unbounded by blast
  have l: "length (keySentences lc t) \<le> 5"
    by (simp add: keySentences_def)
  have w: "actionWords = [js ''will'', js ''going to'', js ''plan to'', js ''need to'',
      js ''should'', js ''must'']"
    by (simp add: actionWords_def)
  from l s m k a w u show ?thesis
    by (intro conjI)
qed

lemma six_plans:
  "sentences (js ''We will plan it. We will plan it. We will plan it. We will plan it. We will plan it. We will plan it.'')
     = [js ''We will plan it'', js '' We will plan it'', js '' We will plan it'',
        js '' We will plan it'', js '' We will plan it'', js '' We will plan it'']"
  "keywords_of ascii_toLowerCase
     (js ''We will plan it. We will plan it. We will plan it. We will plan it. We will plan it. We will plan it.'')
     = [js ''will'', js ''plan'']"
  by (simp_all add: run_defs)

theorem C4_witness:
  "keySentences ascii_toLowerCase
     (js ''We will plan it. We will plan it. We will plan it. We will plan it. We will plan it. We will plan it.'')
     = [js ''We will plan it'', js '' We will plan it'', js '' We will plan it'',
        js '' We will plan it'', js '' We will plan it'']
   \<and> actionSentences ascii_toLowerCase
     (js ''We will plan it. We will plan it. We will plan it. We will plan it. We will plan it. We will plan it.'')
     = [js ''We will plan it'', js '' We will plan it'', js '' We will plan it'',
        js '' We will plan it'', js '' We will plan it'', js '' We will plan it'']
   \<and> list_all (\<lambda>s. list_ex (\<lambda>k. includes_str (ascii_toLowerCase s) k) [js ''will'', js ''plan''])
       (keySentences ascii_toLowerCase
         (js ''We will plan it. We will plan it. We will plan it. We will plan it. We will plan it. We will plan it.''))"
proof -
  let ?t = "js ''We will plan it. We will plan it. We will plan it. We will plan it. We will plan it. We will plan it.''"
  note inst = C4_selection [of ascii_toLowerCase ?t]
  have f: "filter (\<lambda>s. \<exists>k\<in>set [js ''will'', js ''plan'']. includes_str (ascii_toLowerCase s) k)
       [js ''We will plan it'', js '' We will plan it'', js '' We will plan it'',
        js '' We will plan it'', js '' We will plan it'', js '' We will plan it'']
     = [js ''We will plan it'', js '' We will plan it'', js '' We will plan it'',
        js '' We will plan it'', js '' We will plan it'', js '' We will plan it'']"
    by (simp add: js_def includes_str_def ascii_toLowerCase_def sublist_Cons_right)
  have g: "filter (\<lambda>s. \<exists>w\<in>set actionWords. includes_str (ascii_toLowerCase s) w)
       [js ''We will plan it'', js '' We will plan it'', js '' We will plan it'',
        js '' We will plan it'', js '' We will plan it'', js '' We will plan it'']
     = [js ''We will plan it'', js '' We will plan it'', js '' We will plan it'',
        js '' We will plan it'', js '' We will plan it'', js '' We will plan it'']"
    by (simp add: js_def includes_str_def ascii_toLowerCase_def sublist_Cons_right
        actionWords_def)
  from inst have "keySentences ascii_toLowerCase ?t
      = take 5 (filter (\<lambda>s. \<exists>k\<in>set (keywords_of ascii_toLowerCase ?t).
          includes_str (ascii_toLowerCase s) k) (sentences ?t))"
    by blast
  then have k: "keySentences ascii_toLowerCase ?t
     = [js ''We will plan it'', js '' We will plan it'', js '' We will plan it'',
        js '' We will plan it'', js '' We will plan it'']"
    by (simp only: six_plans f) simp
  from inst have "actionSentences ascii_toLowerCase ?t
      = filter (\<lambda>s. \<exists>w\<in>set actionWords. includes_str (ascii_toLowerCase s) w) (sentences ?t)"
    by blast
  then have a: "actionSentences ascii_toLowerCase ?t
     = [js ''We will plan it'', js '' We will plan it'', js '' We will plan it'',
        js '' We will plan it'', js '' We will plan it'', js '' We will plan it'']"
    by (simp only: six_plans g)
  from inst have "\<forall>s\<in>set (keySentences ascii_toLowerCase ?t).
      \<exists>k\<in>set (keywords_of ascii_toLowerCase ?t). includes_str (ascii_toLowerCase s) k"
    by blast
  then have m: "list_all (\<lambda>s. list_ex (\<lambda>k. includes_str (ascii_toLowerCase s) k)
      [js ''will'', js ''plan'']) (keySentences ascii_toLowerCase ?t)"
    by (simp only: six_plans list_all_iff list_ex_iff)
  from k a m show ?thesis
    by (intro conjI)
qed

section \<open>Rendering and the fallback\<close>

lemma sentences_nonempty: "s \<in> set (sentences t) \<Longrightarrow> s \<noteq> []"
  by (auto simp: sentences_def trim_def)

lemma bullet_line_nonempty: "bullet_line s \<noteq> []"
  by (simp add: bullet_line_def)

lemma join_eq_Nil_iff: "(\<forall>x\<in>set xs. x \<noteq> []) \<Longrightarrow> join sep xs = [] \<longleftrightarrow> xs = []"
  by (induction sep xs rule: join.induct) auto

lemma keySentences_subset: "set (keySentences lc t) \<subseteq> set (sentences t)"
  by (auto simp: keySentences_def dest: in_set_takeD)

lemma join_keySentences_empty [simp]:
  "join sep (keySentences lc t) = [] \<longleftrightarrow> keySentences lc t = []"
  using keySentences_subset [of lc t]
  by (intro join_eq_Nil_iff) (auto dest: sentences_nonempty)

lemma join_bullets_empty [simp]: "join sep (map bullet_line xs) = [] \<longleftrightarrow> xs = []"
  using join_eq_Nil_iff [of "map bullet_line xs" sep] by (simp add: bullet_line_nonempty)

text \<open>The variable \<open>summary\<close> is empty exactly when the selection of the mode is empty.\<close>

lemma summary_empty_iff:
  "summary lc t prompt = [] \<longleftrightarrow>
     (if \<not> prompt_includes lc prompt (js ''bullet'') \<and> prompt_includes lc prompt (js ''action'')
      then actionSentences lc t = [] else keySentences lc t = [])"
  by (simp add: summary_def)

lemma lines_of_append: "10 \<notin> set x \<Longrightarrow> lines_of (x @ 10 # rest) = x # lines_of rest"
  by (induction x) auto

lemma lines_of_single: "10 \<notin> set x \<Longrightarrow> lines_of x = [x]"
  by (induction x) auto

lemma lines_of_join:
  "xs \<noteq> [] \<Longrightarrow> (\<forall>x\<in>set xs. 10 \<notin> set x) \<Longrightarrow> lines_of (join [10] xs) = xs"
  by (induction "[10::nat]" xs rule: join.induct) (auto simp: lines_of_append lines_of_single)

text \<open>
  C5, as amended: if the lower-cased prompt contains \<open>bullet\<close> (whether or not it also
  contains \<open>action\<close>) and the keyword-based selection is not empty, the output is the
  selected sentences, each rendered as the bullet, a space and the trimmed sentence, joined
  by line feeds; if moreover no selected sentence has a line feed inside, every line of
  the output begins with the bullet and a space. If the selection is empty, the output is
  \<open>Summary: \<close> followed by the first 3 sentences joined by a space.
\<close>

theorem C5_bullet_mode:
  assumes "prompt_includes lc prompt (js ''bullet'')"
  shows "(keySentences lc t \<noteq> [] \<longrightarrow>
            generateSimpleSummary lc t prompt = join [10] (map bullet_line (keySentences lc t)))
    \<and> (keySentences lc t \<noteq> [] \<and> (\<forall>s\<in>set (keySentences lc t). 10 \<notin> set (trim s)) \<longrightarrow>
          (\<forall>l\<in>set (lines_of (generateSimpleSummary lc t prompt)). prefix [8226, 32] l))
    \<and> (keySentences lc t = [] \<longrightarrow>
          generateSimpleSummary lc t prompt
            = js ''Summary: '' @ join [32] (take 3 (sentences t)))"
proof -
  have s: "summary lc t prompt = join [10] (map bullet_line (keySentences lc t))"
    using assms by (simp add: summary_def)
  have a: "generateSimpleSummary lc t prompt = join [10] (map bullet_line (keySentences lc t))"
    if "keySentences lc t \<noteq> []"
    using that by (simp add: generateSimpleSummary_def s)
  have b: "\<forall>l\<in>set (lines_of (generateSimpleSummary lc t prompt)). prefix [8226, 32] l"
    if ne: "keySentences lc t \<noteq> []" and nl: "\<forall>s\<in>set (keySentences lc t). 10 \<notin> set (trim s)"
  proof -
    have "\<forall>x\<in>set (map bullet_line (keySentences lc t)). 10 \<notin> set x"
      using nl by (auto simp: bullet_line_def)
    then have "lines_of (join [10] (map bullet_line (keySentences lc t)))
        = map bullet_line (keySentences lc t)"
      using ne by (intro lines_of_join) auto
    then show ?thesis
      by (auto simp: a [OF ne] bullet_line_def)
  qed
  have c: "generateSimpleSummary lc t prompt = js ''Summary: '' @ join [32] (take 3 (sentences t))"
    if "keySentences lc t = []"
    using that by (simp add: generateSimpleSummary_def s)
  from a b c show ?thesis by blast
qed

lemma budget_keySentences:
  "keySentences ascii_toLowerCase (js ''Budget review today. Budget plans tomorrow.'')
     = [js ''Budget review today'', js '' Budget plans tomorrow'']"
  by (simp add: run_defs)

lemma short_sentences:
  "sentences (js ''Hi. Ok. Go.'') = []"
  "keySentences ascii_toLowerCase (js ''Hi. Ok. Go.'') = []"
  by (simp_all add: run_defs)

theorem C5_witness:
  "prompt_includes ascii_toLowerCase (Some (js ''Bullet points and action items'')) (js ''bullet'')
   \<and> generateSimpleSummary ascii_toLowerCase (js ''Budget review today. Budget plans tomorrow.'')
        (Some (js ''Bullet points and action items''))
       = [8226, 32] @ js ''Budget review today'' @ [10] @ [8226, 32] @ js ''Budget plans tomorrow''
   \<and> list_all (prefix [8226, 32])
        (lines_of (generateSimpleSummary ascii_toLowerCase
           (js ''Budget review today. Budget plans tomorrow.'')
           (Some (js ''Bullet points and action items''))))
   \<and> generateSimpleSummary ascii_toLowerCase (js ''Hi. Ok. Go.'')
        (Some (js ''Bullet points and action items'')) = js ''Summary: ''"
proof -
  let ?p = "Some (js ''Bullet points and action items'')"
  let ?t = "js ''Budget review today. Budget plans tomorrow.''"
  have h: "prompt_includes ascii_toLowerCase ?p (js ''bullet'')"
    by (simp add: js_def includes_str_def ascii_toLowerCase_def sublist_Cons_right)
  have ne: "keySentences ascii_toLowerCase ?t \<noteq> []"
    by (simp add: budget_keySentences)
  have nl: "\<forall>s\<in>set (keySentences ascii_toLowerCase ?t). 10 \<notin> set (trim s)"
    unfolding budget_keySentences by (simp add: js_def trim_def is_space_def)
  note inst = C5_bullet_mode [OF h, of ?t]
  from inst ne have "generateSimpleSummary ascii_toLowerCase ?t ?p
      = join [10] (map bullet_line (keySentences ascii_toLowerCase ?t))"
    by blast
  then have o: "generateSimpleSummary ascii_toLowerCase ?t ?p
      = [8226, 32] @ js ''Budget review today'' @ [10] @ [8226, 32] @ js ''Budget plans tomorrow''"
    unfolding budget_keySentences by (simp add: bullet_line_def js_def trim_def is_space_def)
  from inst ne nl
  have "\<forall>l\<in>set (lines_of (generateSimpleSummary ascii_toLowerCase ?t ?p)). prefix [8226, 32] l"
    by blast
  then have l: "list_all (prefix [8226, 32])
      (lines_of (generateSimpleSummary ascii_toLowerCase ?t ?p))"
    by (simp only: list_all_iff)
  from C5_bullet_mode [OF h, of "js ''Hi. Ok. Go.''"]
  have "generateSimpleSummary ascii_toLowerCase (js ''Hi. Ok. Go.'') ?p
      = js ''Summary: '' @ join [32] (take 3 (sentences (js ''Hi. Ok. Go.'')))"
    by (simp add: short_sentences)
  then have f: "generateSimpleSummary ascii_toLowerCase (js ''Hi. Ok. Go.'') ?p = js ''Summary: ''"
    unfolding short_sentences by simp
  from h o l f show ?thesis
    by (intro conjI)
qed

text \<open>
  The claim as stated fails where the selection is empty (the only line of the output is
  \<open>Summary: \<close>) and where a selected sentence runs over two lines of the transcript (the
  second line of the output has no bullet).
\<close>

theorem C5_counterexample:
  "prompt_includes ascii_toLowerCase (Some (js ''bullet points'')) (js ''bullet'')
   \<and> generateSimpleSummary ascii_toLowerCase (js ''Hi. Ok. Go.'') (Some (js ''bullet points''))
       = js ''Summary: ''
   \<and> lines_of (generateSimpleSummary ascii_toLowerCase
         (js ''Budget review'' @ [10] @ js ''next week.'') (Some (js ''bullet points'')))
       = [[8226, 32] @ js ''Budget review'', js ''next week'']"
  by (simp add: run_defs)

text \<open>
  C6, as amended: if the lower-cased prompt contains \<open>action\<close> and not \<open>bullet\<close>, and some
  sentence contains an action marker, the output is the sentences with a marker, each
  rendered as a bullet line, joined by line feeds; every sentence rendered is a sentence
  of the transcript whose lower-cased text contains one of the six markers. If no sentence
  contains a marker, the output is \<open>Summary: \<close> followed by the first 3 sentences joined
  by a space. For the transcript \<open>This is a test. We will finish the report. We should
  call the client.\<close> and the prompt \<open>give me action items\<close> the output is the \<open>will\<close>
  sentence and the \<open>should\<close> sentence as bullet lines, and the first sentence does not
  occur in it.
\<close>

theorem C6_action_mode:
  assumes "\<not> prompt_includes lc prompt (js ''bullet'')"
      and "prompt_includes lc prompt (js ''action'')"
  shows "(actionSentences lc t \<noteq> [] \<longrightarrow>
            generateSimpleSummary lc t prompt
              = join [10] (map bullet_line (actionSentences lc t)))
    \<and> (\<forall>s\<in>set (actionSentences lc t).
          s \<in> set (sentences t) \<and> (\<exists>w\<in>set actionWords. includes_str (lc s) w))
    \<and> (actionSentences lc t = [] \<longrightarrow>
          generateSimpleSummary lc t prompt
            = js ''Summary: '' @ join [32] (take 3 (sentences t)))
    \<and> generateSimpleSummary ascii_toLowerCase
         (js ''This is a test. We will finish the report. We should call the client.'')
         (Some (js ''give me action items''))
        = [8226, 32] @ js ''We will finish the report'' @ [10]
          @ [8226, 32] @ js ''We should call the client''
    \<and> \<not> includes_str
         (generateSimpleSummary ascii_toLowerCase
           (js ''This is a test. We will finish the report. We should call the client.'')
           (Some (js ''give me action items'')))
         (js ''This is a test'')"
proof -
  have s: "summary lc t prompt = join [10] (map bullet_line (actionSentences lc t))"
    using assms by (simp add: summary_def)
  have m: "\<forall>s\<in>set (actionSentences lc t).
          s \<in> set (sentences t) \<and> (\<exists>w\<in>set actionWords. includes_str (lc s) w)"
    by (auto simp: actionSentences_def list_ex_iff)
  have r: "generateSimpleSummary ascii_toLowerCase
         (js ''This is a test. We will finish the report. We should call the client.'')
         (Some (js ''give me action items''))
        = [8226, 32] @ js ''We will finish the report'' @ [10]
          @ [8226, 32] @ js ''We should call the client''"
    by (simp add: run_defs)
  have n: "\<not> includes_str
         ([8226, 32] @ js ''We will finish the report'' @ [10]
          @ [8226, 32] @ js ''We should call the client'')
         (js ''This is a test'')"
    by (simp add: js_def includes_str_def sublist_Cons_right)
  from m r n show ?thesis
    by (simp add: generateSimpleSummary_def s)
qed

theorem C6_witness:
  "\<not> prompt_includes ascii_toLowerCase (Some (js ''give me action items'')) (js ''bullet'')
   \<and> prompt_includes ascii_toLowerCase (Some (js ''give me action items'')) (js ''action'')
   \<and> actionSentences ascii_toLowerCase
        (js ''This is a test. We will finish the report. We should call the client.'')
       = [js '' We will finish the report'', js '' We should call the client'']
   \<and> generateSimpleSummary ascii_toLowerCase
        (js ''This is a test. We will finish the report. We should call the client.'')
        (Some (js ''give me action items''))
       = join [10] (map bullet_line
           [js '' We will finish the report'', js '' We should call the client''])
   \<and> generateSimpleSummary ascii_toLowerCase (js ''This is a test.'')
        (Some (js ''give me action items'')) = js ''Summary: This is a test''"
proof -
  let ?p = "Some (js ''give me action items'')"
  let ?t = "js ''This is a test. We will finish the report. We should call the client.''"
  have h1: "\<not> prompt_includes ascii_toLowerCase ?p (js ''bullet'')"
    by (simp add: js_def includes_str_def ascii_toLowerCase_def sublist_Cons_right)
  have h2: "prompt_includes ascii_toLowerCase ?p (js ''action'')"
    by (simp add: js_def includes_str_def ascii_toLowerCase_def sublist_Cons_right)
  have a: "actionSentences ascii_toLowerCase ?t
      = [js '' We will finish the report'', js '' We should call the client'']"
    by (simp add: run_defs)
  have e: "actionSentences ascii_toLowerCase (js ''This is a test.'') = []"
    "sentences (js ''This is a test.'') = [js ''This is a test'']"
    by (simp_all add: run_defs)
  from C6_action_mode [OF h1 h2, of ?t] a
  have o: "generateSimpleSummary ascii_toLowerCase ?t ?p
      = join [10] (map bullet_line
           [js '' We will finish the report'', js '' We should call the client''])"
    by simp
  from C6_action_mode [OF h1 h2, of "js ''This is a test.''"] e
  have "generateSimpleSummary ascii_toLowerCase (js ''This is a test.'') ?p
      = js ''Summary: '' @ join [32] (take 3 [js ''This is a test''])"
    by simp
  then have f: "generateSimpleSummary ascii_toLowerCase (js ''This is a test.'') ?p
      = js ''Summary: This is a test''"
    by (simp add: js_def)
  from h1 h2 a o f show ?thesis
    by (intro conjI)
qed

text \<open>
  The general part of the claim fails where no sentence has a marker: the output then
  holds a sentence without any.
\<close>

theorem C6_counterexample:
  "prompt_includes ascii_toLowerCase (Some (js ''action items'')) (js ''action'')
   \<and> \<not> prompt_includes ascii_toLowerCase (Some (js ''action items'')) (js ''bullet'')
   \<and> generateSimpleSummary ascii_toLowerCase (js ''This is a test.'') (Some (js ''action items''))
       = js ''Summary: This is a test''
   \<and> sentences (js ''This is a test.'') = [js ''This is a test'']
   \<and> \<not> list_ex (\<lambda>word. includes_str (ascii_toLowerCase (js ''This is a test'')) word)
         actionWords"
  by (simp add: run_defs)

text \<open>
  C7, as amended: if the variable \<open>summary\<close> is empty, the output is the literal
  \<open>Summary: \<close> followed by the first 3 sentences joined by a space, where the sentences are
  the pieces of the transcript whose trimmed length exceeds 10; the pieces that the length
  filter drops are not in it. The output is never empty. (For \<open>Hi. Ok. Go.\<close> and an empty
  prompt the output is \<open>Summary: \<close> alone, as the runs after the theorem show.)
\<close>

theorem C7_fallback:
  assumes "summary lc t prompt = []"
  shows "generateSimpleSummary lc t prompt = js ''Summary: '' @ join [32] (take 3 (sentences t))
    \<and> (\<forall>s\<in>set (take 3 (sentences t)).
          s \<in> set (split_on is_sentence_end t) \<and> 10 < length (trim s))
    \<and> generateSimpleSummary lc t prompt \<noteq> []"
proof -
  have "\<forall>s\<in>set (take 3 (sentences t)).
          s \<in> set (split_on is_sentence_end t) \<and> 10 < length (trim s)"
    by (auto simp: sentences_def dest!: in_set_takeD)
  then show ?thesis
    using assms by (simp add: generateSimpleSummary_def)
qed

lemma lab_run:
  "summary ascii_toLowerCase (js ''Go to the lab and do it now. So be it.'') None = []"
  "sentences (js ''Go to the lab and do it now. So be it.'') = [js ''Go to the lab and do it now'']"
  "keySentences ascii_toLowerCase (js ''Go to the lab and do it now. So be it.'') = []"
  by (simp_all add: run_defs)

theorem C7_witness:
  "summary ascii_toLowerCase (js ''Go to the lab and do it now. So be it.'') None = []
   \<and> generateSimpleSummary ascii_toLowerCase (js ''Go to the lab and do it now. So be it.'') None
       = js ''Summary: Go to the lab and do it now''
   \<and> split_on is_sentence_end (js ''Go to the lab and do it now. So be it.'')
       = [js ''Go to the lab and do it now'', js '' So be it'', []]"
proof -
  let ?t = "js ''Go to the lab and do it now. So be it.''"
  from C7_fallback [OF lab_run(1)]
  have "generateSimpleSummary ascii_toLowerCase ?t None
      = js ''Summary: '' @ join [32] (take 3 (sentences ?t))"
    by blast
  then have o: "generateSimpleSummary ascii_toLowerCase ?t None
      = js ''Summary: Go to the lab and do it now''"
    unfolding lab_run(2) by (simp add: js_def)
  have p: "split_on is_sentence_end ?t = [js ''Go to the lab and do it now'', js '' So be it'', []]"
    by (simp add: js_def is_sentence_end_def)
  from lab_run(1) o p show ?thesis
    by (intro conjI)
qed

text \<open>
  The claim as stated fails on its own example: the three short pieces are dropped by the
  length filter before the fallback reads the list, so nothing follows the prefix.
\<close>

theorem C7_counterexample:
  "generateSimpleSummary ascii_toLowerCase (js ''Hi. Ok. Go.'') (Some []) = js ''Summary: ''
   \<and> generateSimpleSummary ascii_toLowerCase (js ''Hi. Ok. Go.'') None = js ''Summary: ''
   \<and> js ''Summary: '' @ join [32] (take 3 (split_on is_sentence_end (js ''Hi. Ok. Go.'')))
       = js ''Summary: Hi  Ok  Go''"
  by (simp add: run_defs)

text \<open>
  C8, as amended: the fallback applies in every mode, exactly when the selection of the
  mode is empty. The variable \<open>summary\<close> is empty if and only if the selection is empty
  (the action selection when the prompt contains \<open>action\<close> and not \<open>bullet\<close>, the
  keyword-based selection otherwise, so also in bullet mode); then the output is
  \<open>Summary: \<close> followed by the first 3 sentences joined by a space, and otherwise the
  output is \<open>summary\<close>.
\<close>

theorem C8_fallback_in_every_mode:
  "(summary lc t prompt = [] \<longleftrightarrow>
      (if \<not> prompt_includes lc prompt (js ''bullet'') \<and> prompt_includes lc prompt (js ''action'')
       then actionSentences lc t = [] else keySentences lc t = []))
   \<and> (summary lc t prompt = [] \<longrightarrow>
        generateSimpleSummary lc t prompt = js ''Summary: '' @ join [32] (take 3 (sentences t)))
   \<and> (summary lc t prompt \<noteq> [] \<longrightarrow> generateSimpleSummary lc t prompt = summary lc t prompt)"
  by (simp add: summary_empty_iff generateSimpleSummary_def)

theorem C8_witness:
  "keySentences ascii_toLowerCase (js ''Go to the lab and do it now. So be it.'') = []
   \<and> generateSimpleSummary ascii_toLowerCase (js ''Go to the lab and do it now. So be it.'') None
       = js ''Summary: Go to the lab and do it now''
   \<and> summary ascii_toLowerCase (js ''This is a test.'') None = js ''This is a test''
   \<and> generateSimpleSummary ascii_toLowerCase (js ''This is a test.'') None = js ''This is a test''"
proof -
  let ?t = "js ''Go to the lab and do it now. So be it.''"
  from C8_fallback_in_every_mode [of ascii_toLowerCase ?t None] lab_run(1)
  have "generateSimpleSummary ascii_toLowerCase ?t None
      = js ''Summary: '' @ join [32] (take 3 (sentences ?t))"
    by blast
  then have o: "generateSimpleSummary ascii_toLowerCase ?t None
      = js ''Summary: Go to the lab and do it now''"
    unfolding lab_run(2) by (simp add: js_def)
  have s: "summary ascii_toLowerCase (js ''This is a test.'') None = js ''This is a test''"
    by (simp add: run_defs)
  then have "summary ascii_toLowerCase (js ''This is a test.'') None \<noteq> []"
    by (simp add: js_def)
  with C8_fallback_in_every_mode [of ascii_toLowerCase "js ''This is a test.''" None]
  have "generateSimpleSummary ascii_toLowerCase (js ''This is a test.'') None
      = summary ascii_toLowerCase (js ''This is a test.'') None"
    by blast
  with s have g: "generateSimpleSummary ascii_toLowerCase (js ''This is a test.'') None
      = js ''This is a test''"
    by simp
  from lab_run(3) o s g show ?thesis
    by (intro conjI)
qed

text \<open>
  The claim as stated fails in bullet mode and in action mode: with an empty selection
  both give the first sentences after the prefix.
\<close>

theorem C8_counterexample:
  "prompt_includes ascii_toLowerCase (Some (js ''bullet points'')) (js ''bullet'')
   \<and> generateSimpleSummary ascii_toLowerCase (js ''Go to the lab and do it now. So be it.'')
        (Some (js ''bullet points'')) = js ''Summary: Go to the lab and do it now''
   \<and> prompt_includes ascii_toLowerCase (Some (js ''action items'')) (js ''action'')
   \<and> generateSimpleSummary ascii_toLowerCase (js ''Go to the lab and do it now. So be it.'')
        (Some (js ''action items'')) = js ''Summary: Go to the lab and do it now''"
  by (simp add: run_defs)

section \<open>Editing a stored summary\<close>

lemma length_update_first [simp]: "length (update_first i e ds) = length ds"
  by (induction ds) auto

lemma doc_ids_update_first [simp]: "map doc_id (update_first i e ds) = map doc_id ds"
  by (induction ds) auto

lemma update_first_unknown: "i \<notin> set (map doc_id ds) \<Longrightarrow> update_first i e ds = ds"
  by (induction ds) auto

lemma find_unknown: "i \<notin> set (map doc_id ds) \<Longrightarrow> find (\<lambda>d. doc_id d = i) ds = None"
  by (induction ds) auto

lemma find_known: "i \<in> set (map doc_id ds) \<Longrightarrow> \<exists>d. find (\<lambda>d. doc_id d = i) ds = Some d"
  by (induction ds) auto

text \<open>The update changes one document, the first with the id, and only its edited text.\<close>

lemma update_first_known:
  "i \<in> set (map doc_id ds) \<Longrightarrow>
   \<exists>k<length ds. doc_id (ds ! k) = i \<and> (\<forall>j<k. doc_id (ds ! j) \<noteq> i)
      \<and> update_first i e ds = ds[k := (ds ! k)\<lparr>editedSummary := Some e\<rparr>]"
proof (induction ds)
  case Nil
  then show ?case by simp
next
  case (Cons d ds)
  show ?case
  proof (cases "doc_id d = i")
    case True
    then have "doc_id ((d # ds) ! 0) = i \<and> (\<forall>j<0. doc_id ((d # ds) ! j) \<noteq> i)
      \<and> update_first i e (d # ds) = (d # ds)[0 := ((d # ds) ! 0)\<lparr>editedSummary := Some e\<rparr>]"
      by simp
    then show ?thesis by (intro exI [of _ 0]) simp
  next
    case False
    with Cons.prems have "i \<in> set (map doc_id ds)" by auto
    from Cons.IH [OF this] obtain k where k: "k < length ds" "doc_id (ds ! k) = i"
      "\<forall>j<k. doc_id (ds ! j) \<noteq> i"
      "update_first i e ds = ds[k := (ds ! k)\<lparr>editedSummary := Some e\<rparr>]"
      by blast
    have "\<forall>j<Suc k. doc_id ((d # ds) ! j) \<noteq> i"
      using False k(3) by (auto simp: less_Suc_eq_0_disj)
    with k False show ?thesis
      by (intro exI [of _ "Suc k"]) simp
  qed
qed

lemma update_first_frame:
  "map (\<lambda>d. (doc_id d, originalText d, customPrompt d, generatedSummary d, createdAt d))
     (update_first i e ds)
   = map (\<lambda>d. (doc_id d, originalText d, customPrompt d, generatedSummary d, createdAt d)) ds"
  by (induction ds) auto

lemma update_first_twice: "update_first i e' (update_first i e ds) = update_first i e' ds"
  by (induction ds) auto

lemma update_summary_400:
  "edited = None \<or> edited = Some [] \<Longrightarrow>
   update_summary db i edited = (db, Json 400 (Error (js ''Edited summary is required'')))"
  by (auto simp: update_summary_def)

lemma update_summary_404:
  "online db \<Longrightarrow> e \<noteq> [] \<Longrightarrow> i \<notin> set (map doc_id (summaries db)) \<Longrightarrow>
   update_summary db i (Some e) = (db, Json 404 (Error (js ''Summary not found'')))"
  by (simp add: update_summary_def findOneAndUpdate_def update_first_unknown find_unknown)

lemma update_summary_200:
  "online db \<Longrightarrow> e \<noteq> [] \<Longrightarrow> i \<in> set (map doc_id (summaries db)) \<Longrightarrow>
   update_summary db i (Some e) =
     (db\<lparr>summaries := update_first i e (summaries db)\<rparr>,
      Json 200 (Message (js ''Summary updated successfully'')))"
  using find_known [of i "summaries db"]
  by (auto simp: update_summary_def findOneAndUpdate_def)

lemma update_summary_frame:
  "map (\<lambda>d. (doc_id d, originalText d, customPrompt d, generatedSummary d, createdAt d))
     (summaries (fst (update_summary db i edited)))
   = map (\<lambda>d. (doc_id d, originalText d, customPrompt d, generatedSummary d, createdAt d))
       (summaries db)"
  by (auto simp: update_summary_def findOneAndUpdate_def update_first_frame
      split: option.splits)

text \<open>
  C9, as amended: for every store that can be reached and every edit request, an empty
  (or missing) \<open>editedSummary\<close> fails with 400 whatever the id, and the store is unchanged;
  a non-empty \<open>editedSummary\<close> for an unknown id fails with 404, and the store is
  unchanged; a non-empty \<open>editedSummary\<close> for a known id succeeds and changes one record
  with this id, of which only \<open>editedSummary\<close> is set to the new text. After any request
  every record has the \<open>id\<close>, \<open>originalText\<close>, \<open>customPrompt\<close>, \<open>generatedSummary\<close> and
  \<open>createdAt\<close> it had before. A second edit of the same record replaces the text of the
  first.
\<close>

theorem C9_edit_changes_only_editedSummary:
  assumes "online db"
  shows "(edited = None \<or> edited = Some [] \<longrightarrow>
            update_summary db i edited
              = (db, Json 400 (Error (js ''Edited summary is required''))))
    \<and> (\<forall>e. edited = Some e \<and> e \<noteq> [] \<and> i \<notin> set (map doc_id (summaries db)) \<longrightarrow>
            update_summary db i edited = (db, Json 404 (Error (js ''Summary not found''))))
    \<and> (\<forall>e. edited = Some e \<and> e \<noteq> [] \<and> i \<in> set (map doc_id (summaries db)) \<longrightarrow>
          (\<exists>k<length (summaries db). doc_id (summaries db ! k) = i
             \<and> update_summary db i edited =
                 (db\<lparr>summaries :=
                       (summaries db)[k := (summaries db ! k)\<lparr>editedSummary := Some e\<rparr>]\<rparr>,
                  Json 200 (Message (js ''Summary updated successfully'')))))
    \<and> map (\<lambda>d. (doc_id d, originalText d, customPrompt d, generatedSummary d, createdAt d))
          (summaries (fst (update_summary db i edited)))
        = map (\<lambda>d. (doc_id d, originalText d, customPrompt d, generatedSummary d, createdAt d))
            (summaries db)
    \<and> (\<forall>e e'. e \<noteq> [] \<and> e' \<noteq> [] \<longrightarrow>
          fst (update_summary (fst (update_summary db i (Some e))) i (Some e'))
            = fst (update_summary db i (Some e')))"
proof (intro conjI allI impI)
  assume "edited = None \<or> edited = Some []"
  then show "update_summary db i edited
      = (db, Json 400 (Error (js ''Edited summary is required'')))"
    by (rule update_summary_400)
next
  fix e assume "edited = Some e \<and> e \<noteq> [] \<and> i \<notin> set (map doc_id (summaries db))"
  then show "update_summary db i edited = (db, Json 404 (Error (js ''Summary not found'')))"
    using assms by (simp add: update_summary_404)
next
  fix e assume a: "edited = Some e \<and> e \<noteq> [] \<and> i \<in> set (map doc_id (summaries db))"
  then obtain k where "k < length (summaries db)" "doc_id (summaries db ! k) = i"
    "update_first i e (summaries db)
      = (summaries db)[k := (summaries db ! k)\<lparr>editedSummary := Some e\<rparr>]"
    using update_first_known [of i "summaries db" e] by blast
  then show "\<exists>k<length (summaries db). doc_id (summaries db ! k) = i
             \<and> update_summary db i edited =
                 (db\<lparr>summaries :=
                       (summaries db)[k := (summaries db ! k)\<lparr>editedSummary := Some e\<rparr>]\<rparr>,
                  Json 200 (Message (js ''Summary updated successfully'')))"
    using a assms by (intro exI [of _ k]) (simp add: update_summary_200)
next
  show "map (\<lambda>d. (doc_id d, originalText d, customPrompt d, generatedSummary d, createdAt d))
          (summaries (fst (update_summary db i edited)))
        = map (\<lambda>d. (doc_id d, originalText d, customPrompt d, generatedSummary d, createdAt d))
            (summaries db)"
    by (rule update_summary_frame)
next
  fix e e' :: jsstring assume ne: "e \<noteq> [] \<and> e' \<noteq> []"
  show "fst (update_summary (fst (update_summary db i (Some e))) i (Some e'))
            = fst (update_summary db i (Some e'))"
  proof (cases "i \<in> set (map doc_id (summaries db))")
    case True
    then show ?thesis
      using assms ne by (simp add: update_summary_200 update_first_twice)
  next
    case False
    then show ?thesis using assms ne by (simp add: update_summary_404)
  qed
qed

theorem C9_witness:
  "update_summary
     \<lparr>summaries = [\<lparr>doc_id = js ''a1'', originalText = js ''We met today.'',
                     customPrompt = None, generatedSummary = js ''Summary: We met today'',
                     editedSummary = None, createdAt = 1700000000000\<rparr>],
      online = True\<rparr> (js ''a1'') (Some (js ''We met.''))
   = (\<lparr>summaries = [\<lparr>doc_id = js ''a1'', originalText = js ''We met today.'',
                     customPrompt = None, generatedSummary = js ''Summary: We met today'',
                     editedSummary = Some (js ''We met.''), createdAt = 1700000000000\<rparr>],
       online = True\<rparr>,
      Json 200 (Message (js ''Summary updated successfully'')))
   \<and> update_summary
     \<lparr>summaries = [\<lparr>doc_id = js ''a1'', originalText = js ''We met today.'',
                     customPrompt = None, generatedSummary = js ''Summary: We met today'',
                     editedSummary = None, createdAt = 1700000000000\<rparr>],
      online = True\<rparr> (js ''b2'') (Some (js ''We met.''))
   = (\<lparr>summaries = [\<lparr>doc_id = js ''a1'', originalText = js ''We met today.'',
                     customPrompt = None, generatedSummary = js ''Summary: We met today'',
                     editedSummary = None, createdAt = 1700000000000\<rparr>],
       online = True\<rparr>,
      Json 404 (Error (js ''Summary not found'')))
   \<and> update_summary
     \<lparr>summaries = [\<lparr>doc_id = js ''a1'', originalText = js ''We met today.'',
                     customPrompt = None, generatedSummary = js ''Summary: We met today'',
                     editedSummary = None, createdAt = 1700000000000\<rparr>],
      online = True\<rparr> (js ''a1'') (Some [])
   = (\<lparr>summaries = [\<lparr>doc_id = js ''a1'', originalText = js ''We met today.'',
                     customPrompt = None, generatedSummary = js ''Summary: We met today'',
                     editedSummary = None, createdAt = 1700000000000\<rparr>],
       online = True\<rparr>,
      Json 400 (Error (js ''Edited summary is required'')))"
proof -
  let ?d = "\<lparr>doc_id = js ''a1'', originalText = js ''We met today.'',
             customPrompt = None, generatedSummary = js ''Summary: We met today'',
             editedSummary = None, createdAt = 1700000000000\<rparr>"
  let ?db = "\<lparr>summaries = [?d], online = True\<rparr>"
  have on: "online ?db" by simp
  have e: "js ''We met.'' \<noteq> []" by (simp add: js_def)
  have known: "js ''a1'' \<in> set (map doc_id (summaries ?db))"
    by simp
  have unknown: "js ''b2'' \<notin> set (map doc_id (summaries ?db))"
    by (simp add: js_def)
  from C9_edit_changes_only_editedSummary [OF on, of "Some (js ''We met.'')" "js ''a1''"] e known
  obtain k where "k < length (summaries ?db)"
    and "update_summary ?db (js ''a1'') (Some (js ''We met.''))
      = (?db\<lparr>summaries := (summaries ?db)[k := (summaries ?db ! k)
            \<lparr>editedSummary := Some (js ''We met.'')\<rparr>]\<rparr>,
         Json 200 (Message (js ''Summary updated successfully'')))"
    by blast
  then have a: "update_summary ?db (js ''a1'') (Some (js ''We met.''))
      = (\<lparr>summaries = [?d\<lparr>editedSummary := Some (js ''We met.'')\<rparr>], online = True\<rparr>,
         Json 200 (Message (js ''Summary updated successfully'')))"
    by simp
  from C9_edit_changes_only_editedSummary [OF on, of "Some (js ''We met.'')" "js ''b2''"] e unknown
  have b: "update_summary ?db (js ''b2'') (Some (js ''We met.''))
      = (?db, Json 404 (Error (js ''Summary not found'')))"
    by blast
  from C9_edit_changes_only_editedSummary [OF on, of "Some []" "js ''a1''"]
  have c: "update_summary ?db (js ''a1'') (Some [])
      = (?db, Json 400 (Error (js ''Edited summary is required'')))"
    by blast
  from a b c show ?thesis
    by simp
qed

text \<open>
  The claim as stated fails for an unknown id together with an empty \<open>editedSummary\<close>: the
  route checks the text before it looks the id up, and answers 400, not 404.
\<close>

theorem C9_counterexample:
  "js ''b2'' \<notin> set (map doc_id (summaries
     \<lparr>summaries = [\<lparr>doc_id = js ''a1'', originalText = js ''We met today.'',
                     customPrompt = None, generatedSummary = js ''Summary: We met today'',
                     editedSummary = None, createdAt = 1700000000000\<rparr>],
      online = True\<rparr>))
   \<and> snd (update_summary
     \<lparr>summaries = [\<lparr>doc_id = js ''a1'', originalText = js ''We met today.'',
                     customPrompt = None, generatedSummary = js ''Summary: We met today'',
                     editedSummary = None, createdAt = 1700000000000\<rparr>],
      online = True\<rparr> (js ''b2'') (Some []))
     = Json 400 (Error (js ''Edited summary is required''))"
  by (simp add: update_summary_def js_def)

end
